theory Spec2Isabelle
  imports Main
begin

section \<open>The RFB protocol engine of xpra (src/xpra/net/rfb/rfb_protocol.py)\<close>

text \<open>
  A shallow embedding of class \<open>RFBProtocol\<close>. Python \<open>bytes\<close> and \<open>str\<close> are both
  character lists (an Isabelle \<open>char\<close> is one byte); the two are kept apart by the
  constructors of \<open>pyval\<close>. Python integers are \<open>int\<close>. An exception is a value: every
  method that can raise returns \<open>Inl (e, st)\<close>, the exception with the state at the point
  of the raise, or \<open>Inr (v, st)\<close>. Calls of the logger are left out, and so is the optional
  trace file \<open>self.log\<close> (unset unless the environment asks for it).
\<close>

subsection \<open>Python built-ins the parsers use\<close>

type_synonym bytes = "char list"

datatype error = IndexError | TypeError | ValueError | NotImplementedError | StructError

text \<open>The values that travel in packets and through the outbound queue. \<open>INVALID\<close> and
  \<open>CONNECTION_LOST\<close> are the two marker constants imported from \<open>xpra.net.protocol\<close>.\<close>

datatype pyval =
    PyStr string
  | PyBytes bytes
  | PyInt int
  | PyTuple "int list"
  | INVALID
  | CONNECTION_LOST

text \<open>The operator \<open>+\<close>: defined within one type only; \<open>bytes + str\<close> raises TypeError.\<close>

fun py_add :: "pyval \<Rightarrow> pyval \<Rightarrow> error + pyval" where
  "py_add (PyStr a) (PyStr b) = Inr (PyStr (a @ b))"
| "py_add (PyBytes a) (PyBytes b) = Inr (PyBytes (a @ b))"
| "py_add (PyInt a) (PyInt b) = Inr (PyInt (a + b))"
| "py_add (PyTuple a) (PyTuple b) = Inr (PyTuple (a @ b))"
| "py_add _ _ = Inl TypeError"

text \<open>Slicing \<open>xs[i:j]\<close>: a negative bound counts from the end, and both bounds are
  clamped to the sequence.\<close>

definition py_index :: "nat \<Rightarrow> int \<Rightarrow> nat" where
  "py_index n i = (if i < 0 then nat (max 0 (int n + i)) else min n (nat i))"

definition py_slice :: "'a list \<Rightarrow> int \<Rightarrow> int \<Rightarrow> 'a list" where
  "py_slice xs i j = drop (py_index (length xs) i) (take (py_index (length xs) j) xs)"

text \<open>\<open>xs[i:]\<close>\<close>

definition py_slice_from :: "'a list \<Rightarrow> int \<Rightarrow> 'a list" where
  "py_slice_from xs i = drop (py_index (length xs) i) xs"

text \<open>\<open>xs[i]\<close> and \<open>xs[i] = v\<close> on a list, for the non-negative indices the code uses.\<close>

definition py_getitem :: "'a list \<Rightarrow> nat \<Rightarrow> error + 'a" where
  "py_getitem xs i = (if i < length xs then Inr (xs ! i) else Inl IndexError)"

definition py_setitem :: "'a list \<Rightarrow> nat \<Rightarrow> 'a \<Rightarrow> error + 'a list" where
  "py_setitem xs i v = (if i < length xs then Inr (xs[i := v]) else Inl IndexError)"

text \<open>\<open>b.split(sep)\<close> with a one-byte separator: every occurrence splits.\<close>

fun split_sep :: "char \<Rightarrow> bytes \<Rightarrow> bytes list" where
  "split_sep sep [] = [[]]"
| "split_sep sep (c # cs) =
     (if c = sep then [] # split_sep sep cs
      else (case split_sep sep cs of
              p # ps \<Rightarrow> (c # p) # ps
            | [] \<Rightarrow> [[c]]))"

text \<open>\<open>int(b)\<close> on bytes, base 10: optional surrounding ASCII whitespace, an optional
  sign, then decimal digits, where single underscores may stand between digits. Anything
  else raises ValueError (\<open>None\<close>).\<close>

definition py_isspace :: "char \<Rightarrow> bool" where
  "py_isspace c = (c = CHR '' '' \<or> (9 \<le> (of_char c :: nat) \<and> (of_char c :: nat) \<le> 13))"

definition py_isdigit :: "char \<Rightarrow> bool" where
  "py_isdigit c = (48 \<le> (of_char c :: nat) \<and> (of_char c :: nat) \<le> 57)"

definition digit_value :: "char \<Rightarrow> int" where
  "digit_value c = int (of_char c) - 48"

fun scan_digits :: "int \<Rightarrow> bytes \<Rightarrow> (int \<times> bytes) option" where
  "scan_digits acc [] = Some (acc, [])"
| "scan_digits acc (c # cs) =
     (if py_isdigit c then scan_digits (acc * 10 + digit_value c) cs
      else if c = CHR ''_'' then
        (case cs of
           [] \<Rightarrow> None
         | d # ds \<Rightarrow> if py_isdigit d then scan_digits (acc * 10 + digit_value d) ds else None)
      else Some (acc, c # cs))"

definition py_int :: "bytes \<Rightarrow> int option" where
  "py_int b =
     (let s = dropWhile py_isspace b;
          neg = (s \<noteq> [] \<and> hd s = CHR ''-'');
          s' = (if s \<noteq> [] \<and> (hd s = CHR ''+'' \<or> hd s = CHR ''-'') then tl s else s)
      in case s' of
           [] \<Rightarrow> None
         | c # cs \<Rightarrow>
             if py_isdigit c then
               (case scan_digits (digit_value c) cs of
                  None \<Rightarrow> None
                | Some (v, rest) \<Rightarrow>
                    if dropWhile py_isspace rest = [] then Some (if neg then - v else v)
                    else None)
             else None)"

text \<open>\<open>tuple(int(x) for x in parts)\<close>: the first part that is no integer raises.\<close>

fun py_int_all :: "bytes list \<Rightarrow> int list option" where
  "py_int_all [] = Some []"
| "py_int_all (p # ps) =
     (case py_int p of
        None \<Rightarrow> None
      | Some v \<Rightarrow> (case py_int_all ps of None \<Rightarrow> None | Some vs \<Rightarrow> Some (v # vs)))"

text \<open>\<open>"%i" % n\<close> and \<open>"%#x" % n\<close> for a natural number (bases up to 16).\<close>

definition digit_char :: "nat \<Rightarrow> char" where
  "digit_char d = (if d < 16 then ''0123456789abcdef'' ! d else CHR ''?'')"

fun format_base :: "nat \<Rightarrow> nat \<Rightarrow> string" where
  "format_base b n =
     (if b < 2 \<or> n < b then [digit_char n]
      else format_base b (n div b) @ [digit_char (n mod b)])"

definition format_i :: "nat \<Rightarrow> string" where
  "format_i n = format_base 10 n"

definition format_alt_x :: "nat \<Rightarrow> string" where
  "format_alt_x n = ''0x'' @ format_base 16 n"

subsection \<open>The \<open>struct\<close> module, network byte order\<close>

text \<open>A layout \<open>struct.Struct(b"!...")\<close> is the list of its format characters. The integer
  codes and the pad byte are modelled: \<open>x\<close>, \<open>B\<close>/\<open>b\<close> (1 byte), \<open>H\<close>/\<open>h\<close> (2 bytes),
  \<open>I\<close>/\<open>i\<close> (4 bytes); upper case is unsigned, lower case two's complement.\<close>

datatype fmt = fmt_x | fmt_B | fmt_b | fmt_H | fmt_h | fmt_I | fmt_i

fun fmt_size :: "fmt \<Rightarrow> nat" where
  "fmt_size fmt_x = 1"
| "fmt_size fmt_B = 1"
| "fmt_size fmt_b = 1"
| "fmt_size fmt_H = 2"
| "fmt_size fmt_h = 2"
| "fmt_size fmt_I = 4"
| "fmt_size fmt_i = 4"

fun fmt_signed :: "fmt \<Rightarrow> bool" where
  "fmt_signed fmt_b = True"
| "fmt_signed fmt_h = True"
| "fmt_signed fmt_i = True"
| "fmt_signed _ = False"

text \<open>\<open>Struct.size\<close>\<close>

definition calcsize :: "fmt list \<Rightarrow> nat" where
  "calcsize s = sum_list (map fmt_size s)"

definition be_uint :: "bytes \<Rightarrow> nat" where
  "be_uint bs = foldl (\<lambda>a c. a * 256 + of_char c) 0 bs"

definition be_sint :: "bytes \<Rightarrow> int" where
  "be_sint bs =
     (if 2 ^ (8 * length bs - 1) \<le> be_uint bs then int (be_uint bs) - 2 ^ (8 * length bs)
      else int (be_uint bs))"

definition unpack_field :: "fmt \<Rightarrow> bytes \<Rightarrow> int" where
  "unpack_field f bs = (if fmt_signed f then be_sint bs else int (be_uint bs))"

fun unpack_fields :: "fmt list \<Rightarrow> bytes \<Rightarrow> int list" where
  "unpack_fields [] bs = []"
| "unpack_fields (f # fs) bs =
     (if f = fmt_x then unpack_fields fs (drop 1 bs)
      else unpack_field f (take (fmt_size f) bs) # unpack_fields fs (drop (fmt_size f) bs))"

text \<open>\<open>Struct.unpack\<close>: the buffer must have exactly the layout's size.\<close>

definition struct_unpack :: "fmt list \<Rightarrow> bytes \<Rightarrow> error + int list" where
  "struct_unpack s bs =
     (if length bs \<noteq> calcsize s then Inl StructError else Inr (unpack_fields s bs))"

text \<open>\<open>struct.pack\<close>: each value must fit its field.\<close>

fun be_bytes :: "nat \<Rightarrow> nat \<Rightarrow> bytes" where
  "be_bytes 0 v = []"
| "be_bytes (Suc k) v = be_bytes k (v div 256) @ [char_of (v mod 256)]"

definition pack_field :: "fmt \<Rightarrow> int \<Rightarrow> error + bytes" where
  "pack_field f v =
     (let bits = 8 * fmt_size f in
      if fmt_signed f then
        (if - (2 ^ (bits - 1)) \<le> v \<and> v < 2 ^ (bits - 1)
         then Inr (be_bytes (fmt_size f) (nat (v mod 2 ^ bits))) else Inl StructError)
      else
        (if 0 \<le> v \<and> v < 2 ^ bits then Inr (be_bytes (fmt_size f) (nat v))
         else Inl StructError))"

fun struct_pack :: "fmt list \<Rightarrow> int list \<Rightarrow> error + bytes" where
  "struct_pack [] [] = Inr []"
| "struct_pack (f # fs) vs =
     (if f = fmt_x then
        (case struct_pack fs vs of Inl e \<Rightarrow> Inl e | Inr r \<Rightarrow> Inr (CHR 0x00 # r))
      else
        (case vs of
           [] \<Rightarrow> Inl StructError
         | v # vs' \<Rightarrow>
             (case pack_field f v of
                Inl e \<Rightarrow> Inl e
              | Inr b \<Rightarrow> (case struct_pack fs vs' of Inl e \<Rightarrow> Inl e | Inr r \<Rightarrow> Inr (b @ r)))))"
| "struct_pack [] (v # vs) = Inl StructError"

subsection \<open>Names imported from modules that are not among the sources\<close>

text \<open>
  \<open>rfb_protocol.py\<close> imports the message table from \<open>xpra.net.rfb.rfb_const\<close>, two
  formatting helpers from \<open>xpra.os_util\<close> and \<open>xpra.util\<close>, and two queue helpers from
  \<open>xpra.net.protocol\<close>. None of these modules is available, so they are parameters of the
  model: \<open>CLIENT_PACKET_TYPE_STR\<close> and \<open>PACKET_STRUCT\<close> are the two dictionaries keyed by
  the message-type code, \<open>SetEncodings\<close> and \<open>ClientCutText\<close> the two members of
  \<open>RFBClientMessage\<close> the parser names.
\<close>

record imported =
  CLIENT_PACKET_TYPE_STR :: "nat \<Rightarrow> string option"
  PACKET_STRUCT :: "nat \<Rightarrow> fmt list option"
  SetEncodings :: nat
  ClientCutText :: nat
  hexstr :: "bytes \<Rightarrow> string"
  repr_ellipsized :: "bytes \<Rightarrow> string"
  exit_queue :: "pyval option list"
  force_flush_queue :: "pyval option list \<Rightarrow> pyval option list"

subsection \<open>The protocol instance\<close>

text \<open>The value of \<open>self._packet_parser\<close>: one of the bound parser methods.\<close>

datatype parser =
    Parse_protocol_handshake
  | Parse_security_handshake
  | Parse_challenge
  | Parse_security_result
  | Parse_rfb
  | Parse_invalid

text \<open>A call handed to the scheduler: the callable with its arguments.\<close>

datatype deferred =
    Call_process_packet_cb "pyval list"
  | Call_connection_lost string
  | Call_close
  | Call_clean

text \<open>
  The fields of the instance the modelled methods touch. The collaborators are recorded by
  what was asked of them: \<open>conn\<close> says whether \<open>self._conn\<close> still holds the connection and
  \<open>conn_close_calls\<close> counts the calls of its \<open>close()\<close>; \<open>process_packet_calls\<close> lists the
  packets handed directly to \<open>self._process_packet_cb\<close>; \<open>idle_calls\<close> and \<open>timeout_calls\<close>
  list the calls of \<open>idle_add\<close> and \<open>timeout_add\<close> (with the delay); \<open>write_queue\<close> is the
  content of \<open>self._write_queue\<close>, where \<open>None\<close> is the exit marker; \<open>detached_queues\<close>
  holds the queues that \<open>terminate_queue_threads\<close> replaced; \<open>write_thread\<close> says whether
  \<open>self._write_thread\<close> is set.
\<close>

record rfb_state =
  conn :: bool
  conn_close_calls :: nat
  write_queue :: "pyval option list"
  detached_queues :: "pyval option list list"
  buffer :: bytes
  input_packetcount :: nat
  input_raw_packetcount :: nat
  closed :: bool
  packet_parser :: parser
  write_thread :: bool
  process_packet_calls :: "pyval list list"
  idle_calls :: "deferred list"
  timeout_calls :: "(nat \<times> deferred) list"

type_synonym 'a result = "(error \<times> rfb_state) + ('a \<times> rfb_state)"

text \<open>The methods a connection variant overrides. In the class itself each of them raises
  NotImplementedError (\<open>base\<close>).\<close>

record overrides =
  handshake_complete :: "rfb_state \<Rightarrow> unit result"
  parse_security_handshake :: "rfb_state \<Rightarrow> bytes \<Rightarrow> int result"
  parse_challenge :: "rfb_state \<Rightarrow> bytes \<Rightarrow> int result"
  parse_security_result :: "rfb_state \<Rightarrow> bytes \<Rightarrow> int result"

definition base :: overrides where
  "base =
     \<lparr> handshake_complete = (\<lambda>st. Inl (NotImplementedError, st)),
       parse_security_handshake = (\<lambda>st packet. Inl (NotImplementedError, st)),
       parse_challenge = (\<lambda>st response. Inl (NotImplementedError, st)),
       parse_security_result = (\<lambda>st packet. Inl (NotImplementedError, st)) \<rparr>"

definition PROTOCOL_VERSION :: "int list" where
  "PROTOCOL_VERSION = [3, 8]"

subsection \<open>Sending and closing\<close>

definition start_write_thread :: "rfb_state \<Rightarrow> rfb_state" where
  "start_write_thread st = st\<lparr>write_thread := True\<rparr>"

definition send :: "rfb_state \<Rightarrow> pyval \<Rightarrow> rfb_state" where
  "send st packet =
     (if closed st then st
      else
        (let st1 = (if \<not> write_thread st then start_write_thread st else st)
         in st1\<lparr>write_queue := write_queue st1 @ [Some packet]\<rparr>))"

definition terminate_queue_threads :: "imported \<Rightarrow> rfb_state \<Rightarrow> rfb_state" where
  "terminate_queue_threads M st =
     (let owq = write_queue st
      in st\<lparr>write_queue := exit_queue M,
             detached_queues := detached_queues st @ [force_flush_queue M owq]\<rparr>)"

definition close :: "imported \<Rightarrow> rfb_state \<Rightarrow> rfb_state" where
  "close M st =
     (if closed st then st
      else
        (let st1 = st\<lparr>closed := True\<rparr>;
             st2 = (if conn st1
                    then st1\<lparr>conn_close_calls := conn_close_calls st1 + 1, conn := False\<rparr>
                    else st1);
             st3 = terminate_queue_threads M st2;
             st4 = st3\<lparr>process_packet_calls := process_packet_calls st3 @ [[CONNECTION_LOST]]\<rparr>
         in st4\<lparr>idle_calls := idle_calls st4 @ [Call_clean]\<rparr>))"

subsection \<open>Invalid data\<close>

definition invalid :: "rfb_state \<Rightarrow> string \<Rightarrow> bytes \<Rightarrow> rfb_state" where
  "invalid st msg data =
     st\<lparr>packet_parser := Parse_invalid,
        idle_calls := idle_calls st @ [Call_process_packet_cb [INVALID, PyStr msg, PyBytes data]],
        timeout_calls := timeout_calls st @ [(1000, Call_connection_lost msg)]\<rparr>"

text \<open>\<open>_invalid_header\<close>; its unused first argument is dropped.\<close>

definition priv_invalid_header :: "imported \<Rightarrow> rfb_state \<Rightarrow> bytes \<Rightarrow> string \<Rightarrow> rfb_state" where
  "priv_invalid_header M st data msg =
     (let st1 = st\<lparr>packet_parser := Parse_invalid\<rparr>;
          err = msg @ '': '' @ [CHR 0x27] @ hexstr M (py_slice data 0 8) @ [CHR 0x27];
          err' = (if length data > 1
                  then err @ '' read buffer='' @ repr_ellipsized M data
                           @ '' ('' @ format_i (length data) @ '' bytes)''
                  else err)
      in invalid st1 err' data)"

definition invalid_header :: "imported \<Rightarrow> rfb_state \<Rightarrow> bytes \<Rightarrow> string \<Rightarrow> rfb_state" where
  "invalid_header M st data msg = priv_invalid_header M st data msg"

subsection \<open>The parsers\<close>

definition parse_invalid :: "rfb_state \<Rightarrow> bytes \<Rightarrow> int result" where
  "parse_invalid st packet = Inr (int (length packet), st)"

definition startswith :: "bytes \<Rightarrow> bytes \<Rightarrow> bool" where
  "startswith b p = (take (length p) b = p)"

definition parse_protocol_handshake ::
  "imported \<Rightarrow> overrides \<Rightarrow> rfb_state \<Rightarrow> bytes \<Rightarrow> int result" where
  "parse_protocol_handshake M X st packet =
     (if length packet < 12 then Inr (0, st)
      else if \<not> startswith packet ''RFB '' then
        Inr (0, invalid_header M st packet ''invalid RFB protocol handshake packet header'')
      else
        (case py_int_all (split_sep CHR ''.'' (py_slice packet 4 11)) of
           None \<Rightarrow> Inl (ValueError, st)
         | Some protocol_version \<Rightarrow>
             if protocol_version \<noteq> PROTOCOL_VERSION then
               (let msg = ''unsupported protocol version'' in
                case struct_pack [fmt_B, fmt_I] [0, int (length msg)] of
                  Inl e \<Rightarrow> Inl (e, st)
                | Inr header \<Rightarrow>
                    (case py_add (PyBytes header) (PyStr msg) of
                       Inl e \<Rightarrow> Inl (e, st)
                     | Inr reply \<Rightarrow> Inr (0, invalid (send st reply) msg packet)))
             else
               (case handshake_complete X st of
                  Inl e \<Rightarrow> Inl e
                | Inr (u, st') \<Rightarrow> Inr (12, st'))))"

text \<open>Lines 134 to 139 of \<open>_parse_rfb\<close>: count the packet, hand it to the packet sink,
  return the number of bytes consumed.\<close>

definition dispatch :: "rfb_state \<Rightarrow> pyval list \<Rightarrow> int \<Rightarrow> int result" where
  "dispatch st values consumed =
     Inr (consumed, st\<lparr>input_packetcount := input_packetcount st + 1,
                   process_packet_calls := process_packet_calls st @ [values]\<rparr>)"

text \<open>Lines 118 to 139 of \<open>_parse_rfb\<close>: the two message types with a trailer, whose
  size comes from a field of the fixed part, and the dispatch of the packet. \<open>b"i"*N\<close> is
  empty for a negative \<open>N\<close>.\<close>

definition parse_rfb_extra ::
  "imported \<Rightarrow> rfb_state \<Rightarrow> bytes \<Rightarrow> nat \<Rightarrow> fmt list \<Rightarrow> pyval list \<Rightarrow> int result" where
  "parse_rfb_extra M st packet ptype s values =
     (let size0 = int (calcsize s) in
      if ptype = SetEncodings M then
        (case py_getitem values 2 of
           Inl e \<Rightarrow> Inl (e, st)
         | Inr (PyInt N) \<Rightarrow>
             (let estruct = replicate (nat N) fmt_i;
                  size' = size0 + int (calcsize estruct)
              in if int (length packet) < size' then Inr (0, st)
                 else
                   (case struct_unpack estruct (py_slice packet (int (calcsize s)) size') of
                      Inl e \<Rightarrow> Inl (e, st)
                    | Inr encodings \<Rightarrow> dispatch st (values @ [PyTuple encodings]) size'))
         | Inr _ \<Rightarrow> Inl (TypeError, st))
      else if ptype = ClientCutText M then
        (case py_getitem values 4 of
           Inl e \<Rightarrow> Inl (e, st)
         | Inr (PyInt l) \<Rightarrow>
             (let size' = size0 + l
              in if int (length packet) < size' then Inr (0, st)
                 else
                   (let text = py_slice packet (int (calcsize s)) size'
                    in dispatch st (values @ [PyBytes text]) size'))
         | Inr _ \<Rightarrow> Inl (TypeError, st))
      else dispatch st values size0)"

text \<open>Lines 113 to 117 of \<open>_parse_rfb\<close>, once the name \<open>packet_type\<close> and the layout
  \<open>s\<close> of the type code \<open>ptype\<close> have been looked up: wait for the fixed part, unpack
  it, and put the name in place of the type code.\<close>

definition parse_rfb_fields ::
  "imported \<Rightarrow> rfb_state \<Rightarrow> bytes \<Rightarrow> nat \<Rightarrow> string \<Rightarrow> fmt list \<Rightarrow> int result" where
  "parse_rfb_fields M st packet ptype packet_type s =
     (if length packet < calcsize s then Inr (0, st)
      else
        (case struct_unpack s (py_slice packet 0 (int (calcsize s))) of
           Inl e \<Rightarrow> Inl (e, st)
         | Inr unpacked \<Rightarrow>
             (case py_setitem (map PyInt unpacked) 0 (PyStr packet_type) of
                Inl e \<Rightarrow> Inl (e, st)
              | Inr values \<Rightarrow> parse_rfb_extra M st packet ptype s values)))"

text \<open>\<open>_parse_rfb\<close>. In Python 3 \<open>packet[0]\<close> is an integer (\<open>ord\<close> raises the TypeError
  that the source catches), and it raises IndexError on an empty buffer. \<open>not packet_type\<close>
  holds for a missing entry and for an empty name; a \<open>Struct\<close> is never false.\<close>

definition parse_rfb :: "imported \<Rightarrow> rfb_state \<Rightarrow> bytes \<Rightarrow> int result" where
  "parse_rfb M st packet =
     (case packet of
        [] \<Rightarrow> Inl (IndexError, st)
      | b0 # rest \<Rightarrow>
          (let ptype = (of_char b0 :: nat);
               unknown = Inr (0, invalid st (''unknown RFB packet type: '' @ format_alt_x ptype) packet)
           in case CLIENT_PACKET_TYPE_STR M ptype of
                None \<Rightarrow> unknown
              | Some packet_type \<Rightarrow>
                  if packet_type = [] then unknown
                  else
                    (case PACKET_STRUCT M ptype of
                       None \<Rightarrow>
                         Inr (0, invalid st (''RFB packet type '' @ [CHR 0x27] @ packet_type
                                             @ [CHR 0x27] @ '' is not supported'') packet)
                     | Some s \<Rightarrow> parse_rfb_fields M st packet ptype packet_type s)))"

text \<open>\<open>self._packet_parser(self._buffer)\<close>\<close>

definition call_packet_parser ::
  "imported \<Rightarrow> overrides \<Rightarrow> rfb_state \<Rightarrow> bytes \<Rightarrow> int result" where
  "call_packet_parser M X st packet =
     (case packet_parser st of
        Parse_protocol_handshake \<Rightarrow> parse_protocol_handshake M X st packet
      | Parse_security_handshake \<Rightarrow> parse_security_handshake X st packet
      | Parse_challenge \<Rightarrow> parse_challenge X st packet
      | Parse_security_result \<Rightarrow> parse_security_result X st packet
      | Parse_rfb \<Rightarrow> parse_rfb M st packet
      | Parse_invalid \<Rightarrow> parse_invalid st packet)"

subsection \<open>The reader\<close>

text \<open>The loop at the end of \<open>_read\<close> (lines 253 to 257). It need not terminate, so it is
  a partial function: \<open>None\<close> stands for a loop that runs forever.\<close>

partial_function (option) parse_loop ::
  "imported \<Rightarrow> overrides \<Rightarrow> rfb_state \<Rightarrow> unit result option" where
  "parse_loop M X st =
     (if buffer st = [] then Some (Inr ((), st))
      else
        (case call_packet_parser M X st (buffer st) of
           Inl e \<Rightarrow> Some (Inl e)
         | Inr (consumed, st') \<Rightarrow>
             if consumed = 0 then Some (Inr ((), st'))
             else parse_loop M X (st'\<lparr>buffer := py_slice_from (buffer st') consumed\<rparr>)))"

declare parse_loop.simps [code]

text \<open>\<open>_read\<close>, given the bytes that \<open>c.read(READ_BUFFER_SIZE)\<close> returned. The result is
  \<open>None\<close>, \<open>False\<close> or \<open>True\<close> as in the source.\<close>

definition read ::
  "imported \<Rightarrow> overrides \<Rightarrow> rfb_state \<Rightarrow> bytes \<Rightarrow> bool option result option" where
  "read M X st buf =
     (if \<not> conn st then Some (Inr (None, st))
      else if buf = [] then
        Some (Inr (Some False, st\<lparr>timeout_calls := timeout_calls st @ [(1000, Call_close)]\<rparr>))
      else
        (case parse_loop M X (st\<lparr>input_raw_packetcount := input_raw_packetcount st + 1,
                                   buffer := buffer st @ buf\<rparr>) of
           None \<Rightarrow> None
         | Some (Inl e) \<Rightarrow> Some (Inl e)
         | Some (Inr (u, st')) \<Rightarrow> Some (Inr (Some True, st'))))"

text \<open>The loop of the read thread, \<open>while not self._closed and callback()\<close> with
  \<open>_read\<close> as the callback, over the successive results of \<open>c.read\<close>. An exception leaves
  the loop; the handlers of \<open>_io_thread_loop\<close> are not modelled.\<close>

fun read_thread_loop ::
  "imported \<Rightarrow> overrides \<Rightarrow> rfb_state \<Rightarrow> bytes list \<Rightarrow> unit result option" where
  "read_thread_loop M X st [] = Some (Inr ((), st))"
| "read_thread_loop M X st (buf # bufs) =
     (if closed st then Some (Inr ((), st))
      else
        (case read M X st buf of
           None \<Rightarrow> None
         | Some (Inl e) \<Rightarrow> Some (Inl e)
         | Some (Inr (r, st')) \<Rightarrow>
             if r = Some True then read_thread_loop M X st' bufs else Some (Inr ((), st'))))"

subsection \<open>Conditions on the parameters\<close>

text \<open>The formats of a layout that yield a value (every one but the pad byte), in the
  order of the unpacked values.\<close>

definition value_fmts :: "fmt list \<Rightarrow> fmt list" where
  "value_fmts s = filter (\<lambda>f. f \<noteq> fmt_x) s"

text \<open>The layout of ClientCutText, when the table has one, reads the length (the value
  \<open>values[4]\<close> of the parser) with an unsigned format.\<close>

definition cut_text_length_unsigned :: "imported \<Rightarrow> bool" where
  "cut_text_length_unsigned M =
     (case PACKET_STRUCT M (ClientCutText M) of
        None \<Rightarrow> True
      | Some s \<Rightarrow>
          (if 4 < length (value_fmts s) then \<not> fmt_signed (value_fmts s ! 4) else True))"

text \<open>The contract of a parser, asked of the overriding methods: the consumed count lies
  between 0 and the number of bytes offered, and the residual buffer is left to the read
  loop. \<open>handshake_complete\<close> returns no count; it leaves the buffer alone.\<close>

definition keeps_contract :: "overrides \<Rightarrow> bool" where
  "keeps_contract X =
     ((\<forall>st st'. handshake_complete X st = Inr ((), st') \<longrightarrow> buffer st' = buffer st)
      \<and> (\<forall>st packet c st'. parse_security_handshake X st packet = Inr (c, st')
            \<longrightarrow> 0 \<le> c \<and> c \<le> int (length packet) \<and> buffer st' = buffer st)
      \<and> (\<forall>st packet c st'. parse_challenge X st packet = Inr (c, st')
            \<longrightarrow> 0 \<le> c \<and> c \<le> int (length packet) \<and> buffer st' = buffer st)
      \<and> (\<forall>st packet c st'. parse_security_result X st packet = Inr (c, st')
            \<longrightarrow> 0 \<le> c \<and> c \<le> int (length packet) \<and> buffer st' = buffer st))"

subsection \<open>Instances of the parameters\<close>

text \<open>
  Concrete values for the parameters, on which the theorems below are exercised. The
  table follows the client messages of the RFB protocol: type codes 0, 2, 3, 4, 5 and 6
  with their fixed layouts, and code 7 as a message that has a name but no layout.
  \<open>sample_structs len\<close> takes the format of the length field of ClientCutText as its
  argument: \<open>fmt_I\<close> reads it unsigned, \<open>fmt_i\<close> reads it signed.
\<close>

definition sample_names :: "nat \<Rightarrow> string option" where
  "sample_names =
     [0 \<mapsto> ''SetPixelFormat'', 2 \<mapsto> ''SetEncodings'', 3 \<mapsto> ''FramebufferUpdateRequest'',
      4 \<mapsto> ''KeyEvent'', 5 \<mapsto> ''PointerEvent'', 6 \<mapsto> ''ClientCutText'',
      7 \<mapsto> ''FileTransfer'']"

definition sample_structs :: "fmt \<Rightarrow> nat \<Rightarrow> fmt list option" where
  "sample_structs len =
     [0 \<mapsto> [fmt_B, fmt_B, fmt_B, fmt_B, fmt_B, fmt_B, fmt_B, fmt_B, fmt_H, fmt_H, fmt_H,
            fmt_B, fmt_B, fmt_B, fmt_B, fmt_B, fmt_B],
      2 \<mapsto> [fmt_B, fmt_B, fmt_H],
      3 \<mapsto> [fmt_B, fmt_B, fmt_H, fmt_H, fmt_H, fmt_H],
      4 \<mapsto> [fmt_B, fmt_B, fmt_B, fmt_B, fmt_I],
      5 \<mapsto> [fmt_B, fmt_B, fmt_H, fmt_H],
      6 \<mapsto> [fmt_B, fmt_B, fmt_B, fmt_B, len]]"

definition sample_hexstr :: "bytes \<Rightarrow> string" where
  "sample_hexstr b =
     concat (map (\<lambda>c. [digit_char (of_char c div 16), digit_char (of_char c mod 16)]) b)"

definition sample_imported :: "fmt \<Rightarrow> imported" where
  "sample_imported len =
     \<lparr> CLIENT_PACKET_TYPE_STR = sample_names,
       PACKET_STRUCT = sample_structs len,
       SetEncodings = 2,
       ClientCutText = 6,
       hexstr = sample_hexstr,
       repr_ellipsized = (\<lambda>b. b),
       exit_queue = replicate 10 None,
       force_flush_queue = (\<lambda>q. [None]) \<rparr>"

text \<open>A connection variant without authentication: completing the handshake selects the
  security handshake, which takes one byte and establishes the message loop.\<close>

definition sample_variant :: overrides where
  "sample_variant =
     \<lparr> handshake_complete = (\<lambda>st. Inr ((), st\<lparr>packet_parser := Parse_security_handshake\<rparr>)),
       parse_security_handshake =
         (\<lambda>st packet. if packet = [] then Inr (0, st)
                      else Inr (1, st\<lparr>packet_parser := Parse_rfb\<rparr>)),
       parse_challenge = (\<lambda>st response. Inl (NotImplementedError, st)),
       parse_security_result = (\<lambda>st packet. Inl (NotImplementedError, st)) \<rparr>"

text \<open>A PointerEvent message: button mask 0, position (16, 32).\<close>

definition pointer_event :: bytes where
  "pointer_event = [CHR 0x05, CHR 0x00, CHR 0x00, CHR 0x10, CHR 0x00, CHR 0x20]"

text \<open>A SetEncodings message with three encodings: 0, 1 and -223.\<close>

definition set_encodings_msg :: bytes where
  "set_encodings_msg =
     [CHR 0x02, CHR 0x00, CHR 0x00, CHR 0x03,
      CHR 0x00, CHR 0x00, CHR 0x00, CHR 0x00,
      CHR 0x00, CHR 0x00, CHR 0x00, CHR 0x01,
      CHR 0xFF, CHR 0xFF, CHR 0xFF, CHR 0x21]"

text \<open>A ClientCutText message with the two bytes \<open>hi\<close>.\<close>

definition cut_text_msg :: bytes where
  "cut_text_msg =
     [CHR 0x06, CHR 0x00, CHR 0x00, CHR 0x00, CHR 0x00, CHR 0x00, CHR 0x00, CHR 0x02,
      CHR ''h'', CHR ''i'']"


text \<open>A freshly constructed instance (\<open>__init__\<close>) and one in the established state.\<close>

definition init_state :: rfb_state where
  "init_state =
     \<lparr> conn = True, conn_close_calls = 0, write_queue = [], detached_queues = [],
       buffer = [], input_packetcount = 0, input_raw_packetcount = 0, closed = False,
       packet_parser = Parse_protocol_handshake, write_thread = False,
       process_packet_calls = [], idle_calls = [], timeout_calls = [] \<rparr>"

definition established :: rfb_state where
  "established = init_state\<lparr>packet_parser := Parse_rfb\<rparr>"

lemmas sample_defs = sample_imported_def sample_names_def sample_structs_def
  established_def init_state_def

section \<open>The message parser, case by case\<close>

text \<open>What \<open>_parse_rfb\<close> returns never depends on the instance: it either raises, or
  signals invalid, or waits, or dispatches a packet, and which of these is decided by the
  table and the buffer alone. The lemmas of this section make that explicit; the claims
  below are proved from them.\<close>

lemma py_slice_prefix: "py_slice xs 0 (int n) = take n xs"
  by (cases "n \<le> length xs") (simp_all add: py_slice_def py_index_def min_def)

lemma py_slice_middle: "py_slice xs (int n) (int m) = drop n (take m xs)"
  by (cases "m \<le> length xs"; cases "n \<le> length xs")
     (simp_all add: py_slice_def py_index_def min_def)

lemma calcsize_replicate_i: "calcsize (replicate n fmt_i) = 4 * n"
  by (induction n) (simp_all add: calcsize_def)

lemma parse_rfb_fields_cases:
  obtains
    (short) "length m < calcsize s"
      and "\<And>st. parse_rfb_fields M st m ptype name s = Inr (0, st)"
  | (raises) "\<not> length m < calcsize s"
      and "unpack_fields s (take (calcsize s) m) = []"
      and "\<And>st. parse_rfb_fields M st m ptype name s = Inl (IndexError, st)"
  | (unpacked) "\<not> length m < calcsize s"
      and "unpack_fields s (take (calcsize s) m) \<noteq> []"
      and "\<And>st. parse_rfb_fields M st m ptype name s
             = parse_rfb_extra M st m ptype s
                 ((map PyInt (unpack_fields s (take (calcsize s) m)))[0 := PyStr name])"
proof (cases "length m < calcsize s")
  case True
  then show ?thesis using short by (simp add: parse_rfb_fields_def)
next
  case False
  then have un: "struct_unpack s (py_slice m 0 (int (calcsize s)))
      = Inr (unpack_fields s (take (calcsize s) m))"
    by (simp add: struct_unpack_def py_slice_prefix)
  show ?thesis
  proof (cases "unpack_fields s (take (calcsize s) m) = []")
    case True
    then have "\<And>st. parse_rfb_fields M st m ptype name s = Inl (IndexError, st)"
      using False by (simp add: parse_rfb_fields_def un py_setitem_def)
    then show ?thesis using raises False True by blast
  next
    case nonempty: False
    then have "\<And>st. parse_rfb_fields M st m ptype name s
             = parse_rfb_extra M st m ptype s
                 ((map PyInt (unpack_fields s (take (calcsize s) m)))[0 := PyStr name])"
      using False by (simp add: parse_rfb_fields_def un py_setitem_def)
    then show ?thesis using unpacked False nonempty by blast
  qed
qed

lemma parse_rfb_extra_complete:
  assumes "parse_rfb_extra M st m ptype s vs = Inr (c, st')" and "c \<noteq> 0"
  shows "\<exists>values. \<forall>st2. parse_rfb_extra M st2 m ptype s vs = dispatch st2 values c"
  using assms unfolding parse_rfb_extra_def Let_def
  by (auto simp: dispatch_def split: if_splits sum.splits pyval.splits)

lemma parse_rfb_fields_complete:
  assumes "parse_rfb_fields M st m ptype name s = Inr (c, st')" and "c \<noteq> 0"
  shows "\<exists>values. \<forall>st2. parse_rfb_fields M st2 m ptype name s = dispatch st2 values c"
proof (cases rule: parse_rfb_fields_cases [of m s M ptype name])
  case short
  then show ?thesis using assms by simp
next
  case raises
  then show ?thesis using assms by simp
next
  case unpacked
  then show ?thesis using assms parse_rfb_extra_complete [of M st m ptype s _ c st'] by simp
qed


lemma parse_rfb_cases:
  obtains
    (empty) "m = []" and "\<And>st. parse_rfb M st m = Inl (IndexError, st)"
  | (unknown) msg where "m \<noteq> []"
      and "CLIENT_PACKET_TYPE_STR M (of_char (hd m)) = None
           \<or> CLIENT_PACKET_TYPE_STR M (of_char (hd m)) = Some []
           \<or> PACKET_STRUCT M (of_char (hd m)) = None"
      and "\<And>st. parse_rfb M st m = Inr (0, invalid st msg m)"
  | (known) name s where "m \<noteq> []"
      and "CLIENT_PACKET_TYPE_STR M (of_char (hd m)) = Some name" and "name \<noteq> []"
      and "PACKET_STRUCT M (of_char (hd m)) = Some s"
      and "\<And>st. parse_rfb M st m = parse_rfb_fields M st m (of_char (hd m)) name s"
proof (cases m)
  case Nil
  then show ?thesis using empty by (simp add: parse_rfb_def)
next
  case (Cons b0 rest)
  show ?thesis
  proof (cases "CLIENT_PACKET_TYPE_STR M (of_char b0)")
    case None
    then show ?thesis using unknown [of "''unknown RFB packet type: '' @ format_alt_x (of_char b0)"] Cons
      by (simp add: parse_rfb_def)
  next
    case (Some name)
    show ?thesis
    proof (cases "name = []")
      case True
      then show ?thesis
        using unknown [of "''unknown RFB packet type: '' @ format_alt_x (of_char b0)"] Cons Some
        by (simp add: parse_rfb_def)
    next
      case False
      show ?thesis
      proof (cases "PACKET_STRUCT M (of_char b0)")
        case None
        then show ?thesis
          using unknown [of "''RFB packet type '' @ [CHR 0x27] @ name @ [CHR 0x27] @ '' is not supported''"]
            Cons Some False
          by (simp add: parse_rfb_def)
      next
        case (Some s)
        then show ?thesis
          using known [of name s] Cons \<open>CLIENT_PACKET_TYPE_STR M (of_char b0) = Some name\<close> False
          by (simp add: parse_rfb_def)
      qed
    qed
  qed
qed

lemma parse_rfb_complete:
  assumes "parse_rfb M st m = Inr (c, st')" and "c \<noteq> 0"
  shows "\<exists>values. \<forall>st2. parse_rfb M st2 m = dispatch st2 values c"
proof (cases rule: parse_rfb_cases [of m M])
  case empty
  then show ?thesis using assms by simp
next
  case (unknown msg)
  then show ?thesis using assms by simp
next
  case (known name s)
  then show ?thesis
    using assms parse_rfb_fields_complete [of M st m "of_char (hd m)" name s c st'] by simp
qed

lemma parse_rfb_extra_prefix:
  assumes "parse_rfb_extra M st m ptype s vs = Inr (int (length m), st')"
    and "calcsize s \<le> k" and "k < length m"
  shows "parse_rfb_extra M st2 (take k m) ptype s vs = Inr (0, st2)"
  using assms unfolding parse_rfb_extra_def Let_def
  by (auto simp: dispatch_def split: if_splits sum.splits pyval.splits)

lemma parse_rfb_fields_prefix:
  assumes "parse_rfb_fields M st m ptype name s = Inr (int (length m), st')"
    and "k < length m"
  shows "parse_rfb_fields M st2 (take k m) ptype name s = Inr (0, st2)"
proof (cases "k < calcsize s")
  case True
  then show ?thesis using assms(2) by (simp add: parse_rfb_fields_def)
next
  case False
  then have hdr: "take (calcsize s) (take k m) = take (calcsize s) m"
    by (simp add: min_def)
  have len: "\<not> length (take k m) < calcsize s"
    using False assms(2) by simp
  show ?thesis
  proof (cases rule: parse_rfb_fields_cases [of m s M ptype name])
    case short
    then show ?thesis using False assms(2) by simp
  next
    case raises
    then show ?thesis using assms(1) by simp
  next
    case unpacked
    show ?thesis
    proof (cases rule: parse_rfb_fields_cases [of "take k m" s M ptype name])
      case short
      then show ?thesis using len by simp
    next
      case raises
      then show ?thesis using unpacked(2) hdr by simp
    next
      case unpacked2: unpacked
      show ?thesis
        using assms(1) unpacked(3) unpacked2(3) hdr False assms(2)
          parse_rfb_extra_prefix [of M st m ptype s _ st' k st2]
        by simp
    qed
  qed
qed

lemma parse_rfb_prefix:
  assumes "parse_rfb M st m = Inr (int (length m), st')" and "0 < k" and "k < length m"
  shows "parse_rfb M st2 (take k m) = Inr (0, st2)"
proof -
  have hd: "hd (take k m) = hd m" and ne: "take k m \<noteq> []" "m \<noteq> []"
    using assms(2,3) by (cases m; cases k; simp)+
  show ?thesis
  proof (cases rule: parse_rfb_cases [of m M])
    case empty
    then show ?thesis using ne by simp
  next
    case (unknown msg)
    then show ?thesis using assms(1,3) by simp
  next
    case (known name s)
    have "parse_rfb M st2 (take k m) = parse_rfb_fields M st2 (take k m) (of_char (hd m)) name s"
      using known(2,3,4) ne hd
      by (cases "take k m") (simp_all add: parse_rfb_def)
    then show ?thesis
      using known(5) assms(1,3) parse_rfb_fields_prefix [of M st m "of_char (hd m)" name s st' k st2]
      by simp
  qed
qed

text \<open>The two sample messages with a trailer, parsed.\<close>

lemmas eval_defs = parse_rfb_def parse_rfb_fields_def parse_rfb_extra_def dispatch_def
  calcsize_def struct_unpack_def py_slice_def py_index_def py_setitem_def py_getitem_def
  unpack_field_def be_uint_def be_sint_def

lemma replicate_3: "replicate 3 x = [x, x, x]"
  by (simp add: numeral_3_eq_3)

lemma parse_set_encodings_msg:
  "parse_rfb (sample_imported fmt_I) established set_encodings_msg
     = Inr (16, established\<lparr>input_packetcount := 1,
                  process_packet_calls :=
                    [[PyStr ''SetEncodings'', PyInt 0, PyInt 3, PyTuple [0, 1, - 223]]]\<rparr>)"
  by (simp add: eval_defs sample_defs set_encodings_msg_def Let_def replicate_3)

lemma parse_cut_text_msg:
  "parse_rfb (sample_imported fmt_I) established cut_text_msg
     = Inr (10, established\<lparr>input_packetcount := 1,
                  process_packet_calls :=
                    [[PyStr ''ClientCutText'', PyInt 0, PyInt 0, PyInt 0, PyInt 2,
                      PyBytes ''hi'']]\<rparr>)"
  by (simp add: eval_defs sample_defs cut_text_msg_def)

section \<open>Messages with a trailer\<close>

lemma unpack_fields_replicate_i:
  "unpack_fields (replicate n fmt_i) bs = map (\<lambda>i. be_sint (take 4 (drop (4 * i) bs))) [0..<n]"
proof (induction n arbitrary: bs)
  case 0
  then show ?case by simp
next
  case (Suc n)
  have "map (\<lambda>i. be_sint (take 4 (drop (4 * i) bs))) [0..<Suc n]
        = be_sint (take 4 bs) # map (\<lambda>i. be_sint (take 4 (drop (4 * Suc i) bs))) [0..<n]"
    by (simp only: map_upt_Suc) simp
  also have "map (\<lambda>i. be_sint (take 4 (drop (4 * Suc i) bs))) [0..<n]
        = map (\<lambda>i. be_sint (take 4 (drop (4 * i) (drop 4 bs)))) [0..<n]"
    by (simp add: add.commute)
  finally show ?case
    using Suc.IH [of "drop 4 bs"] by (simp add: unpack_field_def)
qed

lemma trailer_entry:
  assumes "i < n"
  shows "take 4 (drop (4 * i) (drop c (take (c + 4 * n) m))) = take 4 (drop (c + 4 * i) m)"
proof -
  have "drop (4 * i) (drop c (take (c + 4 * n) m)) = take (4 * n - 4 * i) (drop (c + 4 * i) m)"
    by (simp add: drop_take add.commute)
  moreover have "min 4 (4 * n - 4 * i) = (4::nat)" using assms by simp
  ultimately show ?thesis by simp
qed

text \<open>
  Claim C6. Take a buffer that starts with the type code of SetEncodings, whose fixed
  part is complete and declares the count \<open>N\<close> in its third field. Every non-empty
  prefix of the buffer that is shorter than the fixed size plus \<open>4 * N\<close> makes the
  message parser return 0 and leave the instance unchanged. Once that many bytes are
  buffered the parser returns exactly the fixed size plus \<open>4 * N\<close>, counts one packet
  and dispatches one packet: the name, the remaining fixed fields, and last the tuple of
  the \<open>N\<close> signed big-endian 32-bit integers of the trailer.
\<close>

theorem set_encodings_framing:
  assumes "CLIENT_PACKET_TYPE_STR M (SetEncodings M) = Some name" and "name \<noteq> []"
    and "PACKET_STRUCT M (SetEncodings M) = Some s"
    and "m \<noteq> []" and "of_char (hd m) = SetEncodings M"
    and "calcsize s \<le> length m"
    and "unpack_fields s (take (calcsize s) m) = unpacked"
    and "2 < length unpacked" and "unpacked ! 2 = int N"
  shows "(\<forall>k. 0 < k \<and> length (take k m) < calcsize s + 4 * N
            \<longrightarrow> parse_rfb M st (take k m) = Inr (0, st))
       \<and> (calcsize s + 4 * N \<le> length m
            \<longrightarrow> parse_rfb M st m
                = Inr (int (calcsize s + 4 * N),
                       st\<lparr>input_packetcount := input_packetcount st + 1,
                          process_packet_calls := process_packet_calls st
                            @ [(map PyInt unpacked)[0 := PyStr name]
                               @ [PyTuple (map (\<lambda>i. be_sint (take 4 (drop (calcsize s + 4 * i) m)))
                                            [0..<N])]]\<rparr>))"
proof (intro conjI allI impI)
  have nz: "unpacked \<noteq> []" using assms(8) by auto
  fix k
  assume k: "0 < k \<and> length (take k m) < calcsize s + 4 * N"
  then have ne: "take k m \<noteq> []" and hd: "hd (take k m) = hd m"
    using assms(4) by (cases m; cases k; simp)+
  have top: "parse_rfb M st (take k m)
             = parse_rfb_fields M st (take k m) (SetEncodings M) name s"
    using assms(1,2,3,5) ne hd by (cases "take k m") (simp_all add: parse_rfb_def)
  show "parse_rfb M st (take k m) = Inr (0, st)"
  proof (cases "length (take k m) < calcsize s")
    case True
    then show ?thesis by (simp add: top parse_rfb_fields_def)
  next
    case False
    then have "calcsize s \<le> k" by simp
    then have hdr: "take (calcsize s) (take k m) = take (calcsize s) m" by (simp add: min_def)
    have un: "struct_unpack s (take (calcsize s) m) = Inr unpacked"
      using assms(6,7) by (simp add: struct_unpack_def)
    show ?thesis
      using False k assms(8,9) nz unfolding top parse_rfb_fields_def py_slice_prefix hdr un
      by (simp add: py_setitem_def parse_rfb_extra_def py_getitem_def calcsize_replicate_i)
  qed
next
  have nz: "unpacked \<noteq> []" using assms(8) by auto
  assume full: "calcsize s + 4 * N \<le> length m"
  have top: "parse_rfb M st m = parse_rfb_fields M st m (SetEncodings M) name s"
    using assms(1,2,3,4,5) by (cases m) (simp_all add: parse_rfb_def)
  have un: "struct_unpack s (take (calcsize s) m) = Inr unpacked"
    using assms(6,7) by (simp add: struct_unpack_def)
  have slice: "py_slice m (int (calcsize s)) (int (calcsize s) + 4 * int N)
               = drop (calcsize s) (take (calcsize s + 4 * N) m)"
    using py_slice_middle [of m "calcsize s" "calcsize s + 4 * N"] by simp
  have "unpack_fields (replicate N fmt_i) (drop (calcsize s) (take (calcsize s + 4 * N) m))
        = map (\<lambda>i. be_sint (take 4 (drop (4 * i) (drop (calcsize s) (take (calcsize s + 4 * N) m)))))
              [0..<N]"
    by (rule unpack_fields_replicate_i)
  also have "\<dots> = map (\<lambda>i. be_sint (take 4 (drop (calcsize s + 4 * i) m))) [0..<N]"
    by (rule map_cong [OF refl]) (simp only: trailer_entry atLeastLessThan_iff set_upt)
  finally have "unpack_fields (replicate N fmt_i) (drop (calcsize s) (take (calcsize s + 4 * N) m))
        = map (\<lambda>i. be_sint (take 4 (drop (calcsize s + 4 * i) m))) [0..<N]" .
  moreover have "length (drop (calcsize s) (take (calcsize s + 4 * N) m)) = 4 * N"
    using full by simp
  ultimately have enc:
    "struct_unpack (replicate N fmt_i) (drop (calcsize s) (take (calcsize s + 4 * N) m))
       = Inr (map (\<lambda>i. be_sint (take 4 (drop (calcsize s + 4 * i) m))) [0..<N])"
    by (simp only: struct_unpack_def calcsize_replicate_i if_False simp_thms)
  show "parse_rfb M st m
        = Inr (int (calcsize s + 4 * N),
               st\<lparr>input_packetcount := input_packetcount st + 1,
                  process_packet_calls := process_packet_calls st
                    @ [(map PyInt unpacked)[0 := PyStr name]
                       @ [PyTuple (map (\<lambda>i. be_sint (take 4 (drop (calcsize s + 4 * i) m)))
                                    [0..<N])]]\<rparr>)"
    using full assms(6,8,9) nz unfolding top parse_rfb_fields_def py_slice_prefix un
    by (simp add: py_setitem_def parse_rfb_extra_def py_getitem_def calcsize_replicate_i
        slice enc dispatch_def)
qed


text \<open>The sample SetEncodings message (count 3) followed by another message: 3 and 15
  bytes are not enough, and from the whole buffer exactly 16 bytes are taken.\<close>

lemma upt_3: "[0..<3] = [0, 1, 2]"
  by (simp add: numeral_3_eq_3)

theorem set_encodings_framing_witness:
  "parse_rfb (sample_imported fmt_I) established (take 3 (set_encodings_msg @ pointer_event))
     = Inr (0, established)
   \<and> parse_rfb (sample_imported fmt_I) established (take 15 (set_encodings_msg @ pointer_event))
     = Inr (0, established)
   \<and> parse_rfb (sample_imported fmt_I) established (set_encodings_msg @ pointer_event)
     = Inr (16, established\<lparr>input_packetcount := 1,
                  process_packet_calls :=
                    [[PyStr ''SetEncodings'', PyInt 0, PyInt 3, PyTuple [0, 1, - 223]]]\<rparr>)"
proof -
  let ?M = "sample_imported fmt_I"
  let ?m = "set_encodings_msg @ pointer_event"
  let ?s = "[fmt_B, fmt_B, fmt_H]"
  have h1: "CLIENT_PACKET_TYPE_STR ?M (SetEncodings ?M) = Some ''SetEncodings''"
    and h2: "''SetEncodings'' \<noteq> []"
    and h3: "PACKET_STRUCT ?M (SetEncodings ?M) = Some ?s"
    by (simp_all add: sample_defs)
  have h4: "?m \<noteq> []" and h5: "of_char (hd ?m) = SetEncodings ?M"
    and h6: "calcsize ?s \<le> length ?m"
    by (simp_all add: sample_defs set_encodings_msg_def pointer_event_def calcsize_def)
  have h7: "unpack_fields ?s (take (calcsize ?s) ?m) = [2, 0, 3]"
    by (simp add: set_encodings_msg_def calcsize_def unpack_field_def be_uint_def)
  have h8: "2 < length [2, 0, 3 :: int]" and h9: "[2, 0, 3 :: int] ! 2 = int 3"
    by simp_all
  note inst = set_encodings_framing [OF h1 h2 h3 h4 h5 h6 h7 h8 h9, of established]
  have size: "calcsize ?s + 4 * 3 = 16" by (simp add: calcsize_def)
  have len: "length ?m = 22" by (simp add: set_encodings_msg_def pointer_event_def)
  from inst have short: "\<And>k. 0 < k \<Longrightarrow> length (take k ?m) < calcsize ?s + 4 * 3
      \<Longrightarrow> parse_rfb ?M established (take k ?m) = Inr (0, established)"
    by blast
  have a: "parse_rfb ?M established (take 3 ?m) = Inr (0, established)"
    by (rule short) (simp_all add: set_encodings_msg_def pointer_event_def calcsize_def)
  have b: "parse_rfb ?M established (take 15 ?m) = Inr (0, established)"
    by (rule short) (simp_all add: set_encodings_msg_def pointer_event_def calcsize_def)
  from inst have "parse_rfb ?M established ?m
        = Inr (int (calcsize ?s + 4 * 3),
               established\<lparr>input_packetcount := input_packetcount established + 1,
                  process_packet_calls := process_packet_calls established
                    @ [(map PyInt [2, 0, 3])[0 := PyStr ''SetEncodings'']
                       @ [PyTuple (map (\<lambda>i. be_sint (take 4 (drop (calcsize ?s + 4 * i) ?m)))
                                    [0..<3])]]\<rparr>)"
    by (simp add: set_encodings_msg_def pointer_event_def calcsize_def)
  then have c: "parse_rfb ?M established ?m
     = Inr (16, established\<lparr>input_packetcount := 1,
                  process_packet_calls :=
                    [[PyStr ''SetEncodings'', PyInt 0, PyInt 3, PyTuple [0, 1, - 223]]]\<rparr>)"
    unfolding size upt_3
    by (simp add: set_encodings_msg_def pointer_event_def calcsize_def be_sint_def be_uint_def
        established_def init_state_def)
  show ?thesis using a b c by simp
qed

section \<open>The read loop in discard mode\<close>

lemma py_slice_from_all: "py_slice_from xs (int (length xs)) = []"
  by (simp add: py_slice_from_def py_index_def)

lemma parse_loop_empty: "buffer st = [] \<Longrightarrow> parse_loop M X st = Some (Inr ((), st))"
  by (subst parse_loop.simps) simp

lemma parse_loop_wait:
  assumes "buffer st \<noteq> []" and "call_packet_parser M X st (buffer st) = Inr (0, st')"
  shows "parse_loop M X st = Some (Inr ((), st'))"
  using assms by (subst parse_loop.simps) simp

lemma parse_loop_step:
  assumes "buffer st \<noteq> []" and "call_packet_parser M X st (buffer st) = Inr (c, st')"
    and "c \<noteq> 0"
  shows "parse_loop M X st = parse_loop M X (st'\<lparr>buffer := py_slice_from (buffer st') c\<rparr>)"
  using assms by (subst parse_loop.simps) simp

lemma parse_loop_raise:
  assumes "buffer st \<noteq> []" and "call_packet_parser M X st (buffer st) = Inl e"
  shows "parse_loop M X st = Some (Inl e)"
  using assms by (subst parse_loop.simps) simp

lemma parse_loop_discard:
  assumes "packet_parser st = Parse_invalid"
  shows "parse_loop M X st = Some (Inr ((), st\<lparr>buffer := []\<rparr>))"
proof (cases "buffer st = []")
  case True
  then have "st\<lparr>buffer := []\<rparr> = st" by simp
  then show ?thesis using True by (simp add: parse_loop_empty)
next
  case False
  have call: "call_packet_parser M X st (buffer st) = Inr (int (length (buffer st)), st)"
    using assms by (simp add: call_packet_parser_def parse_invalid_def)
  have "parse_loop M X st = parse_loop M X (st\<lparr>buffer := []\<rparr>)"
    using parse_loop_step [OF False call] False by (simp add: py_slice_from_all)
  then show ?thesis by (simp add: parse_loop_empty)
qed

lemma read_discard:
  assumes "packet_parser st = Parse_invalid"
  shows "\<exists>r st'. read M X st buf = Some (Inr (r, st'))
           \<and> packet_parser st' = Parse_invalid
           \<and> process_packet_calls st' = process_packet_calls st
           \<and> input_packetcount st' = input_packetcount st
           \<and> idle_calls st' = idle_calls st"
  using assms by (simp add: read_def parse_loop_discard)

lemma read_thread_loop_discard:
  assumes "packet_parser st = Parse_invalid"
  shows "\<exists>st'. read_thread_loop M X st bufs = Some (Inr ((), st'))
           \<and> packet_parser st' = Parse_invalid
           \<and> process_packet_calls st' = process_packet_calls st
           \<and> input_packetcount st' = input_packetcount st
           \<and> idle_calls st' = idle_calls st"
  using assms
proof (induction bufs arbitrary: st)
  case Nil
  then show ?case by simp
next
  case (Cons buf bufs)
  from read_discard [OF Cons.prems, of M X buf] obtain r st1 where
    r: "read M X st buf = Some (Inr (r, st1))" and p: "packet_parser st1 = Parse_invalid"
    and same: "process_packet_calls st1 = process_packet_calls st"
      "input_packetcount st1 = input_packetcount st" "idle_calls st1 = idle_calls st"
    by blast
  from Cons.IH [OF p] obtain st' where
    l: "read_thread_loop M X st1 bufs = Some (Inr ((), st'))" and p': "packet_parser st' = Parse_invalid"
    and same': "process_packet_calls st' = process_packet_calls st1"
      "input_packetcount st' = input_packetcount st1" "idle_calls st' = idle_calls st1"
    by blast
  show ?case
    using r p same l p' same' Cons.prems by (cases "closed st") auto
qed

lemma read_pointer_event:
  "read_thread_loop (sample_imported fmt_I) base established [pointer_event]
     = Some (Inr ((), established\<lparr>input_packetcount := 1, input_raw_packetcount := 1,
          process_packet_calls := [[PyStr ''PointerEvent'', PyInt 0, PyInt 16, PyInt 32]]\<rparr>))"
  by (simp add: read_def parse_loop.simps call_packet_parser_def parse_rfb_def
      parse_rfb_fields_def parse_rfb_extra_def dispatch_def sample_defs pointer_event_def
      calcsize_def struct_unpack_def py_slice_def py_index_def py_setitem_def
      unpack_field_def be_uint_def py_slice_from_def)

text \<open>
  Claim C4. When the first buffered byte is a type code without an entry in the table of
  names or in the table of layouts, the message parser returns 0, makes the discard
  parser the active one, hands exactly one INVALID notification to the scheduler (with
  the message and the offending bytes) and schedules the disconnect; the read loop stops
  with the bytes still buffered. Whatever is read afterwards, well-formed or not, nothing
  more is dispatched to the packet sink, the packet counter stays, the discard parser
  stays active and no further INVALID notification is issued.
\<close>

theorem unknown_type_discards:
  assumes "buffer st = b # rest"
    and "packet_parser st = Parse_rfb"
    and "CLIENT_PACKET_TYPE_STR M (of_char b) = None \<or> PACKET_STRUCT M (of_char b) = None"
  shows "\<exists>msg st'.
           st' = st\<lparr>packet_parser := Parse_invalid,
                     idle_calls := idle_calls st
                        @ [Call_process_packet_cb [INVALID, PyStr msg, PyBytes (buffer st)]],
                     timeout_calls := timeout_calls st @ [(1000, Call_connection_lost msg)]\<rparr>
         \<and> parse_rfb M st (buffer st) = Inr (0, st')
         \<and> parse_loop M X st = Some (Inr ((), st'))
         \<and> (\<forall>bufs. \<exists>st''. read_thread_loop M X st' bufs = Some (Inr ((), st''))
                \<and> packet_parser st'' = Parse_invalid
                \<and> process_packet_calls st'' = process_packet_calls st
                \<and> input_packetcount st'' = input_packetcount st
                \<and> idle_calls st'' = idle_calls st')"
proof (cases rule: parse_rfb_cases [of "buffer st" M])
  case empty
  then show ?thesis using assms(1) by simp
next
  case (unknown msg)
  define st' where "st' = invalid st msg (buffer st)"
  have inv: "packet_parser st' = Parse_invalid" by (simp add: st'_def invalid_def)
  have "parse_loop M X st = Some (Inr ((), st'))"
    using parse_loop_wait [of st M X st'] assms(1,2) unknown(3)
    by (simp add: call_packet_parser_def st'_def)
  moreover have "\<forall>bufs. \<exists>st''. read_thread_loop M X st' bufs = Some (Inr ((), st''))
                \<and> packet_parser st'' = Parse_invalid
                \<and> process_packet_calls st'' = process_packet_calls st
                \<and> input_packetcount st'' = input_packetcount st
                \<and> idle_calls st'' = idle_calls st'"
    using read_thread_loop_discard [OF inv, of M X] by (simp add: st'_def invalid_def)
  ultimately show ?thesis
    using unknown(3) by (intro exI [of _ msg] exI [of _ st']) (simp add: st'_def invalid_def)
next
  case (known name s)
  then show ?thesis using assms(1,3) by simp
qed

text \<open>An unknown type code 0xff followed by a PointerEvent, and then the same
  PointerEvent read again: nothing is dispatched, whereas the established instance
  dispatches that PointerEvent.\<close>

theorem unknown_type_discards_witness:
  "parse_rfb (sample_imported fmt_I) (established\<lparr>buffer := CHR 0xFF # pointer_event\<rparr>)
       (CHR 0xFF # pointer_event)
     = Inr (0, established\<lparr>buffer := CHR 0xFF # pointer_event, packet_parser := Parse_invalid,
           idle_calls := [Call_process_packet_cb [INVALID, PyStr ''unknown RFB packet type: 0xff'',
                            PyBytes (CHR 0xFF # pointer_event)]],
           timeout_calls := [(1000, Call_connection_lost ''unknown RFB packet type: 0xff'')]\<rparr>)
   \<and> read_thread_loop (sample_imported fmt_I) base
        (established\<lparr>buffer := CHR 0xFF # pointer_event, packet_parser := Parse_invalid,
           idle_calls := [Call_process_packet_cb [INVALID, PyStr ''unknown RFB packet type: 0xff'',
                            PyBytes (CHR 0xFF # pointer_event)]],
           timeout_calls := [(1000, Call_connection_lost ''unknown RFB packet type: 0xff'')]\<rparr>)
        [pointer_event]
     = Some (Inr ((), established\<lparr>buffer := [], input_raw_packetcount := 1,
           packet_parser := Parse_invalid,
           idle_calls := [Call_process_packet_cb [INVALID, PyStr ''unknown RFB packet type: 0xff'',
                            PyBytes (CHR 0xFF # pointer_event)]],
           timeout_calls := [(1000, Call_connection_lost ''unknown RFB packet type: 0xff'')]\<rparr>))
   \<and> read_thread_loop (sample_imported fmt_I) base established [pointer_event]
     = Some (Inr ((), established\<lparr>input_packetcount := 1, input_raw_packetcount := 1,
          process_packet_calls := [[PyStr ''PointerEvent'', PyInt 0, PyInt 16, PyInt 32]]\<rparr>))"
proof -
  let ?M = "sample_imported fmt_I"
  let ?st = "established\<lparr>buffer := CHR 0xFF # pointer_event\<rparr>"
  have h1: "buffer ?st = CHR 0xFF # pointer_event" by simp
  have h2: "packet_parser ?st = Parse_rfb" by (simp add: sample_defs)
  have h3: "CLIENT_PACKET_TYPE_STR ?M (of_char (CHR 0xFF)) = None
            \<or> PACKET_STRUCT ?M (of_char (CHR 0xFF)) = None"
    by (simp add: sample_defs)
  from unknown_type_discards [OF h1 h2 h3, of base] obtain msg st' where
    st': "st' = ?st\<lparr>packet_parser := Parse_invalid,
                     idle_calls := idle_calls ?st
                        @ [Call_process_packet_cb [INVALID, PyStr msg, PyBytes (buffer ?st)]],
                     timeout_calls := timeout_calls ?st @ [(1000, Call_connection_lost msg)]\<rparr>"
    and p: "parse_rfb ?M ?st (buffer ?st) = Inr (0, st')"
    and after: "\<forall>bufs. \<exists>st''. read_thread_loop ?M base st' bufs = Some (Inr ((), st''))
                \<and> packet_parser st'' = Parse_invalid
                \<and> process_packet_calls st'' = process_packet_calls ?st
                \<and> input_packetcount st'' = input_packetcount ?st
                \<and> idle_calls st'' = idle_calls st'"
    by blast
  have msg: "msg = ''unknown RFB packet type: 0xff''"
    using p unfolding st'
    by (simp add: parse_rfb_def invalid_def sample_defs format_alt_x_def digit_char_def)
  have a: "parse_rfb ?M ?st (CHR 0xFF # pointer_event) = Inr (0, st')"
    using p by simp
  have b: "read_thread_loop ?M base st' [pointer_event]
           = Some (Inr ((), st'\<lparr>buffer := [], input_raw_packetcount := 1\<rparr>))"
    unfolding st' msg
    by (simp add: read_def parse_loop.simps call_packet_parser_def parse_invalid_def
        sample_defs pointer_event_def py_slice_from_def py_index_def)
  show ?thesis
    using a b read_pointer_event unfolding st' msg by (simp add: sample_defs)
qed

section \<open>Reading a message in pieces\<close>

lemma parse_rfb_nonempty:
  assumes "parse_rfb M st m = Inr (c, st')"
  shows "m \<noteq> []"
  using assms by (auto simp: parse_rfb_def)

lemma read_nonempty:
  assumes "conn s" and "buf \<noteq> []"
  shows "read M X s buf
         = (case parse_loop M X (s\<lparr>input_raw_packetcount := input_raw_packetcount s + 1,
                                       buffer := buffer s @ buf\<rparr>) of
              None \<Rightarrow> None
            | Some (Inl e) \<Rightarrow> Some (Inl e)
            | Some (Inr (u, st')) \<Rightarrow> Some (Inr (Some True, st')))"
  using assms by (simp add: read_def)

lemma read_chunks:
  assumes whole: "\<And>s. parse_rfb M s m = dispatch s vals (int (length m))"
    and prefix: "\<And>k s. 0 < k \<Longrightarrow> k < length m \<Longrightarrow> parse_rfb M s (take k m) = Inr (0, s)"
    and ne: "m \<noteq> []"
  shows "conn s \<Longrightarrow> \<not> closed s \<Longrightarrow> packet_parser s = Parse_rfb
    \<Longrightarrow> buffer s @ concat chunks = m \<Longrightarrow> chunks \<noteq> [] \<Longrightarrow> \<forall>c\<in>set chunks. c \<noteq> []
    \<Longrightarrow> read_thread_loop M X s chunks
        = Some (Inr ((), s\<lparr>buffer := [],
                            input_raw_packetcount := input_raw_packetcount s + length chunks,
                            input_packetcount := input_packetcount s + 1,
                            process_packet_calls := process_packet_calls s @ [vals]\<rparr>))"
proof (induction chunks arbitrary: s)
  case Nil
  then show ?case by simp
next
  case (Cons c cs)
  define s' where "s' = s\<lparr>input_raw_packetcount := input_raw_packetcount s + 1,
                           buffer := buffer s @ c\<rparr>"
  have c: "c \<noteq> []" using Cons.prems(6) by simp
  note rd = read_nonempty [OF Cons.prems(1) c, of M X, folded s'_def]
  have s': "conn s'" "\<not> closed s'" "packet_parser s' = Parse_rfb" "buffer s' = buffer s @ c"
    "buffer s' \<noteq> []"
    using Cons.prems(1,2,3) c by (simp_all add: s'_def)
  show ?case
  proof (cases "cs = []")
    case True
    then have buf: "buffer s' = m" using Cons.prems(4) s'(4) by simp
    have call: "call_packet_parser M X s' (buffer s')
                = Inr (int (length m), s'\<lparr>input_packetcount := input_packetcount s' + 1,
                          process_packet_calls := process_packet_calls s' @ [vals]\<rparr>)"
      using s'(3) whole [of s'] by (simp add: call_packet_parser_def buf dispatch_def)
    have "parse_loop M X s'
          = Some (Inr ((), s'\<lparr>input_packetcount := input_packetcount s' + 1,
                          process_packet_calls := process_packet_calls s' @ [vals],
                          buffer := []\<rparr>))"
      using parse_loop_step [OF s'(5) call] ne
      by (simp add: buf py_slice_from_all parse_loop_empty)
    then have "read M X s c
          = Some (Inr (Some True, s'\<lparr>input_packetcount := input_packetcount s' + 1,
                          process_packet_calls := process_packet_calls s' @ [vals],
                          buffer := []\<rparr>))"
      by (simp add: rd)
    then show ?thesis
      using True Cons.prems(2) by (simp add: s'_def)
  next
    case False
    then have "concat cs \<noteq> []" using Cons.prems(6) by (cases cs) auto
    then have k: "0 < length (buffer s')" "length (buffer s') < length m"
      using Cons.prems(4) s'(4,5) by (auto simp flip: Cons.prems(4))
    have "buffer s' = take (length (buffer s')) m"
      using Cons.prems(4) s'(4) by (auto simp flip: Cons.prems(4))
    then have "parse_rfb M s' (buffer s') = Inr (0, s')"
      using prefix [OF k, of s'] by simp
    then have "parse_loop M X s' = Some (Inr ((), s'))"
      using parse_loop_wait [OF s'(5), of M X s'] s'(3) by (simp add: call_packet_parser_def)
    then have rd': "read M X s c = Some (Inr (Some True, s'))"
      by (simp add: rd)
    have "read_thread_loop M X s' cs
        = Some (Inr ((), s'\<lparr>buffer := [],
                            input_raw_packetcount := input_raw_packetcount s' + length cs,
                            input_packetcount := input_packetcount s' + 1,
                            process_packet_calls := process_packet_calls s' @ [vals]\<rparr>))"
      using Cons.IH [OF s'(1,2,3) _ False] Cons.prems(4,6) s'(4) by simp
    then show ?thesis
      using rd' Cons.prems(2) by (simp add: s'_def)
  qed
qed

text \<open>
  Claim C3. Let \<open>m\<close> be a complete message: the message parser takes exactly its bytes.
  On an open instance in the established state with an empty residual buffer, reading
  \<open>m\<close> in one piece and reading it split into any non-empty pieces both run to the end
  without exception and hand the same single packet to the packet sink; the two final
  instances agree in every field (the packet, the packet counter, the emptied buffer, the
  active parser) except the counter of reads, which counts the pieces.
\<close>

theorem fragmentation_invariance:
  assumes "parse_rfb M st m = Inr (int (length m), st1)"
    and "conn st" and "\<not> closed st" and "packet_parser st = Parse_rfb" and "buffer st = []"
    and "concat chunks = m" and "\<forall>c\<in>set chunks. c \<noteq> []"
  shows "\<exists>vals.
           st1 = st\<lparr>input_packetcount := input_packetcount st + 1,
                     process_packet_calls := process_packet_calls st @ [vals]\<rparr>
         \<and> read_thread_loop M X st [m]
             = Some (Inr ((), st1\<lparr>input_raw_packetcount := input_raw_packetcount st + 1\<rparr>))
         \<and> read_thread_loop M X st chunks
             = Some (Inr ((), st1\<lparr>input_raw_packetcount :=
                                     input_raw_packetcount st + length chunks\<rparr>))"
proof -
  have ne: "m \<noteq> []" using assms(1) by (rule parse_rfb_nonempty)
  then have nz: "int (length m) \<noteq> 0" by simp
  from parse_rfb_complete [OF assms(1) nz] obtain vals where
    whole: "\<And>s. parse_rfb M s m = dispatch s vals (int (length m))" by blast
  have prefix: "\<And>k s. 0 < k \<Longrightarrow> k < length m \<Longrightarrow> parse_rfb M s (take k m) = Inr (0, s)"
    using parse_rfb_prefix [OF assms(1)] by blast
  have st1: "st1 = st\<lparr>input_packetcount := input_packetcount st + 1,
                     process_packet_calls := process_packet_calls st @ [vals]\<rparr>"
    using assms(1) whole [of st] by (simp add: dispatch_def)
  have empty: "st\<lparr>buffer := []\<rparr> = st" using assms(5) by simp
  have chunks: "chunks \<noteq> []" using ne assms(6) by auto
  have one: "read_thread_loop M X st [m]
             = Some (Inr ((), st1\<lparr>input_raw_packetcount := input_raw_packetcount st + 1\<rparr>))"
    using read_chunks [of M m vals st "[m]" X, OF whole prefix ne assms(2,3,4)] assms(5) ne
    unfolding st1 by (simp add: empty)
  have many: "read_thread_loop M X st chunks
             = Some (Inr ((), st1\<lparr>input_raw_packetcount :=
                                     input_raw_packetcount st + length chunks\<rparr>))"
    using read_chunks [of M m vals st chunks X, OF whole prefix ne assms(2,3,4) _ chunks assms(7)]
      assms(5,6)
    unfolding st1 by (simp add: empty)
  show ?thesis using st1 one many by blast
qed

text \<open>The sample SetEncodings message read in one piece and in five.\<close>

theorem fragmentation_invariance_witness:
  "read_thread_loop (sample_imported fmt_I) base established [set_encodings_msg]
     = Some (Inr ((), established\<lparr>input_packetcount := 1, input_raw_packetcount := 1,
                  process_packet_calls :=
                    [[PyStr ''SetEncodings'', PyInt 0, PyInt 3, PyTuple [0, 1, - 223]]]\<rparr>))
   \<and> read_thread_loop (sample_imported fmt_I) base established
        [[CHR 0x02], [CHR 0x00, CHR 0x00],
         [CHR 0x03, CHR 0x00, CHR 0x00, CHR 0x00, CHR 0x00, CHR 0x00],
         [CHR 0x00, CHR 0x00, CHR 0x01, CHR 0xFF, CHR 0xFF, CHR 0xFF], [CHR 0x21]]
     = Some (Inr ((), established\<lparr>input_packetcount := 1, input_raw_packetcount := 5,
                  process_packet_calls :=
                    [[PyStr ''SetEncodings'', PyInt 0, PyInt 3, PyTuple [0, 1, - 223]]]\<rparr>))"
proof -
  let ?M = "sample_imported fmt_I"
  let ?chunks = "[[CHR 0x02], [CHR 0x00, CHR 0x00],
         [CHR 0x03, CHR 0x00, CHR 0x00, CHR 0x00, CHR 0x00, CHR 0x00],
         [CHR 0x00, CHR 0x00, CHR 0x01, CHR 0xFF, CHR 0xFF, CHR 0xFF], [CHR 0x21]]"
  let ?st1 = "established\<lparr>input_packetcount := 1,
                  process_packet_calls :=
                    [[PyStr ''SetEncodings'', PyInt 0, PyInt 3, PyTuple [0, 1, - 223]]]\<rparr>"
  have h1: "parse_rfb ?M established set_encodings_msg
            = Inr (int (length set_encodings_msg), ?st1)"
    using parse_set_encodings_msg by (simp add: set_encodings_msg_def)
  have h2: "conn established" and h3: "\<not> closed established"
    and h4: "packet_parser established = Parse_rfb" and h5: "buffer established = []"
    by (simp_all add: sample_defs)
  have h6: "concat ?chunks = set_encodings_msg" by (simp add: set_encodings_msg_def)
  have h7: "\<forall>c\<in>set ?chunks. c \<noteq> []" by simp
  from fragmentation_invariance [OF h1 h2 h3 h4 h5 h6 h7, of base]
  have "read_thread_loop ?M base established [set_encodings_msg]
             = Some (Inr ((), ?st1\<lparr>input_raw_packetcount := input_raw_packetcount established + 1\<rparr>))"
    and "read_thread_loop ?M base established ?chunks
             = Some (Inr ((), ?st1\<lparr>input_raw_packetcount :=
                                     input_raw_packetcount established + length ?chunks\<rparr>))"
    by blast+
  then show ?thesis by (simp add: sample_defs)
qed

section \<open>Truncated input\<close>

text \<open>
  Claim C5. Too few buffered bytes are never an error. Let \<open>m\<close> be a complete message
  (the message parser takes exactly its bytes) and let the buffer hold a proper prefix of
  it, ending in the fixed part or in the trailer. On a non-empty prefix the message
  parser returns 0 and leaves the instance as it was: no packet is handed to the sink,
  the active parser stays, no field changes. The read loop, which never calls a parser on
  an empty buffer, returns with the instance unchanged for every proper prefix, the empty
  one included. The same holds for the handshake parser on fewer than 12 bytes.
\<close>

theorem truncated_message_waits:
  assumes "parse_rfb M st m = Inr (int (length m), st')" and "k < length m"
  shows "(0 < k \<longrightarrow> parse_rfb M st2 (take k m) = Inr (0, st2))
       \<and> (packet_parser st2 = Parse_rfb \<and> buffer st2 = take k m
            \<longrightarrow> parse_loop M X st2 = Some (Inr ((), st2)))
       \<and> (length packet < 12
            \<longrightarrow> parse_protocol_handshake M X st2 packet = Inr (0, st2))
       \<and> (packet_parser st2 = Parse_protocol_handshake \<and> length (buffer st2) < 12
            \<longrightarrow> parse_loop M X st2 = Some (Inr ((), st2)))"
proof (intro conjI impI)
  assume "0 < k"
  then show "parse_rfb M st2 (take k m) = Inr (0, st2)"
    using parse_rfb_prefix [OF assms(1) _ assms(2)] by simp
next
  assume a: "packet_parser st2 = Parse_rfb \<and> buffer st2 = take k m"
  show "parse_loop M X st2 = Some (Inr ((), st2))"
  proof (cases "k = 0")
    case True
    then show ?thesis using a by (simp add: parse_loop_empty)
  next
    case False
    then have "parse_rfb M st2 (take k m) = Inr (0, st2)"
      using parse_rfb_prefix [OF assms(1) _ assms(2)] by simp
    moreover have "buffer st2 \<noteq> []" using a False assms(2) by auto
    ultimately show ?thesis
      using a parse_loop_wait [of st2 M X st2] by (simp add: call_packet_parser_def)
  qed
next
  assume "length packet < 12"
  then show "parse_protocol_handshake M X st2 packet = Inr (0, st2)"
    by (simp add: parse_protocol_handshake_def)
next
  assume a: "packet_parser st2 = Parse_protocol_handshake \<and> length (buffer st2) < 12"
  show "parse_loop M X st2 = Some (Inr ((), st2))"
  proof (cases "buffer st2 = []")
    case True
    then show ?thesis by (simp add: parse_loop_empty)
  next
    case False
    then show ?thesis
      using a parse_loop_wait [of st2 M X st2]
      by (simp add: call_packet_parser_def parse_protocol_handshake_def)
  qed
qed

text \<open>The sample ClientCutText message cut after 5 bytes (inside the fixed part) and
  after 9 bytes (inside the text), and a handshake of 11 bytes.\<close>

theorem truncated_message_waits_witness:
  "parse_rfb (sample_imported fmt_I) established (take 5 cut_text_msg) = Inr (0, established)
   \<and> parse_rfb (sample_imported fmt_I) established (take 9 cut_text_msg) = Inr (0, established)
   \<and> parse_loop (sample_imported fmt_I) base (established\<lparr>buffer := take 9 cut_text_msg\<rparr>)
       = Some (Inr ((), established\<lparr>buffer := take 9 cut_text_msg\<rparr>))
   \<and> parse_loop (sample_imported fmt_I) base (init_state\<lparr>buffer := ''RFB 003.008''\<rparr>)
       = Some (Inr ((), init_state\<lparr>buffer := ''RFB 003.008''\<rparr>))"
proof -
  let ?M = "sample_imported fmt_I"
  have h: "parse_rfb ?M established cut_text_msg
           = Inr (int (length cut_text_msg), established\<lparr>input_packetcount := 1,
                  process_packet_calls :=
                    [[PyStr ''ClientCutText'', PyInt 0, PyInt 0, PyInt 0, PyInt 2,
                      PyBytes ''hi'']]\<rparr>)"
    using parse_cut_text_msg by (simp add: cut_text_msg_def)
  have k5: "5 < length cut_text_msg" and k9: "9 < length cut_text_msg"
    by (simp_all add: cut_text_msg_def)
  have a: "parse_rfb ?M established (take 5 cut_text_msg) = Inr (0, established)"
    using truncated_message_waits [OF h k5, of established] by simp
  have b: "parse_rfb ?M established (take 9 cut_text_msg) = Inr (0, established)"
    using truncated_message_waits [OF h k9, of established] by simp
  have c: "parse_loop ?M base (established\<lparr>buffer := take 9 cut_text_msg\<rparr>)
       = Some (Inr ((), established\<lparr>buffer := take 9 cut_text_msg\<rparr>))"
    using truncated_message_waits [OF h k9, of "established\<lparr>buffer := take 9 cut_text_msg\<rparr>" base]
    by (simp add: sample_defs)
  have d: "parse_loop ?M base (init_state\<lparr>buffer := ''RFB 003.008''\<rparr>)
       = Some (Inr ((), init_state\<lparr>buffer := ''RFB 003.008''\<rparr>))"
    using truncated_message_waits [OF h k9, of "init_state\<lparr>buffer := ''RFB 003.008''\<rparr>" base]
    by (simp add: sample_defs)
  show ?thesis using a b c d by simp
qed

section \<open>Termination of the parse loop\<close>

lemma length_unpack_fields: "length (unpack_fields s bs) = length (value_fmts s)"
  by (induction s arbitrary: bs) (simp_all add: value_fmts_def)

lemma unpack_fields_nth_nonneg:
  "i < length (value_fmts s) \<Longrightarrow> \<not> fmt_signed (value_fmts s ! i)
     \<Longrightarrow> 0 \<le> unpack_fields s bs ! i"
proof (induction s arbitrary: bs i)
  case Nil
  then show ?case by (simp add: value_fmts_def)
next
  case (Cons f s)
  show ?case
  proof (cases "f = fmt_x")
    case True
    then show ?thesis using Cons by (simp add: value_fmts_def)
  next
    case False
    then show ?thesis
      using Cons.prems Cons.IH [of "i - 1" "drop (fmt_size f) bs"]
      by (cases i) (simp_all add: value_fmts_def unpack_field_def)
  qed
qed

lemma length_py_slice_from:
  assumes "0 < c" and "xs \<noteq> []"
  shows "length (py_slice_from xs c) < length xs"
  using assms by (simp add: py_slice_from_def py_index_def min_def)

lemma parse_rfb_extra_bound:
  assumes "parse_rfb_extra M st p ptype s vs = Inr (c, st')"
    and "calcsize s \<le> length p"
    and "\<And>l. ptype = ClientCutText M \<Longrightarrow> py_getitem vs 4 = Inr (PyInt l) \<Longrightarrow> 0 \<le> l"
  shows "0 \<le> c \<and> c \<le> int (length p) \<and> buffer st' = buffer st"
  using assms unfolding parse_rfb_extra_def Let_def
  by (auto simp: dispatch_def split: if_splits sum.splits pyval.splits)


lemma parse_rfb_fields_bound:
  assumes "parse_rfb_fields M st p ptype name s = Inr (c, st')"
    and "ptype = ClientCutText M \<Longrightarrow> 4 < length (value_fmts s)
           \<Longrightarrow> \<not> fmt_signed (value_fmts s ! 4)"
  shows "0 \<le> c \<and> c \<le> int (length p) \<and> buffer st' = buffer st"
proof (cases rule: parse_rfb_fields_cases [of p s M ptype name])
  case short
  then show ?thesis using assms(1) by simp
next
  case raises
  then show ?thesis using assms(1) by simp
next
  case unpacked
  let ?un = "unpack_fields s (take (calcsize s) p)"
  have extra: "parse_rfb_extra M st p ptype s ((map PyInt ?un)[0 := PyStr name]) = Inr (c, st')"
    using unpacked(3) assms(1) by simp
  have len: "calcsize s \<le> length p" using unpacked(1) by simp
  have nonneg: "0 \<le> l"
    if "ptype = ClientCutText M" and "py_getitem ((map PyInt ?un)[0 := PyStr name]) 4 = Inr (PyInt l)"
    for l
  proof -
    from that(2) have i: "4 < length ?un" and l: "l = ?un ! 4"
      by (auto simp: py_getitem_def split: if_splits)
    from i have "4 < length (value_fmts s)" by (simp add: length_unpack_fields)
    then show ?thesis
      using assms(2) [OF that(1)] unpack_fields_nth_nonneg [of 4 s "take (calcsize s) p"] l
      by simp
  qed
  show ?thesis by (rule parse_rfb_extra_bound [OF extra len nonneg])
qed

lemma parse_rfb_bound:
  assumes "parse_rfb M st p = Inr (c, st')" and "cut_text_length_unsigned M"
  shows "0 \<le> c \<and> c \<le> int (length p) \<and> buffer st' = buffer st"
proof (cases rule: parse_rfb_cases [of p M])
  case empty
  then show ?thesis using assms(1) by simp
next
  case (unknown msg)
  then show ?thesis using assms(1) by (auto simp: invalid_def)
next
  case (known name s)
  have fields: "parse_rfb_fields M st p (of_char (hd p)) name s = Inr (c, st')"
    using known(5) assms(1) by simp
  show ?thesis
  proof (rule parse_rfb_fields_bound [OF fields])
    assume "of_char (hd p) = ClientCutText M" and "4 < length (value_fmts s)"
    then show "\<not> fmt_signed (value_fmts s ! 4)"
      using assms(2) known(4) by (simp add: cut_text_length_unsigned_def)
  qed
qed

lemma buffer_invalid: "buffer (invalid st msg data) = buffer st"
  by (simp add: invalid_def)

lemma buffer_invalid_header: "buffer (invalid_header M st data msg) = buffer st"
  by (simp add: invalid_header_def priv_invalid_header_def Let_def buffer_invalid)

lemma buffer_send: "buffer (send st packet) = buffer st"
  by (simp add: send_def start_write_thread_def Let_def)

lemma parse_protocol_handshake_bound:
  assumes "parse_protocol_handshake M X st p = Inr (c, st')"
    and "\<And>s s'. handshake_complete X s = Inr ((), s') \<Longrightarrow> buffer s' = buffer s"
  shows "0 \<le> c \<and> c \<le> int (length p) \<and> buffer st' = buffer st"
proof (cases "length p < 12")
  case True
  then show ?thesis using assms(1) by (simp add: parse_protocol_handshake_def)
next
  case long: False
  show ?thesis
  proof (cases "startswith p ''RFB ''")
    case False
    then show ?thesis
      using assms(1) long by (auto simp: parse_protocol_handshake_def buffer_invalid_header)
  next
    case True
    show ?thesis
    proof (cases "py_int_all (split_sep CHR ''.'' (py_slice p 4 11))")
      case None
      then show ?thesis using assms(1) long True by (simp add: parse_protocol_handshake_def)
    next
      case (Some v)
      show ?thesis
      proof (cases "v = PROTOCOL_VERSION")
        case False
        then show ?thesis
          using assms(1) long True Some
          by (auto simp: parse_protocol_handshake_def Let_def buffer_invalid buffer_send
              split: sum.splits)
      next
        case same: True
        then show ?thesis
          using assms long True Some
          by (auto simp: parse_protocol_handshake_def split: sum.splits)
      qed
    qed
  qed
qed

lemma call_packet_parser_bound:
  assumes "call_packet_parser M X st p = Inr (c, st')"
    and "cut_text_length_unsigned M" and "keeps_contract X"
  shows "0 \<le> c \<and> c \<le> int (length p) \<and> buffer st' = buffer st"
proof (cases "packet_parser st")
  case Parse_protocol_handshake
  then have "parse_protocol_handshake M X st p = Inr (c, st')"
    using assms(1) by (simp add: call_packet_parser_def)
  moreover have "\<And>s s'. handshake_complete X s = Inr ((), s') \<Longrightarrow> buffer s' = buffer s"
    using assms(3) by (simp add: keeps_contract_def)
  ultimately show ?thesis by (rule parse_protocol_handshake_bound)
next
  case Parse_security_handshake
  then show ?thesis
    using assms(1,3) by (simp add: call_packet_parser_def keeps_contract_def)
next
  case Parse_challenge
  then show ?thesis
    using assms(1,3) by (simp add: call_packet_parser_def keeps_contract_def)
next
  case Parse_security_result
  then show ?thesis
    using assms(1,3) by (simp add: call_packet_parser_def keeps_contract_def)
next
  case Parse_rfb
  then show ?thesis
    using assms(1,2) parse_rfb_bound [of M st p c st'] by (simp add: call_packet_parser_def)
next
  case Parse_invalid
  then show ?thesis
    using assms(1) by (auto simp: call_packet_parser_def parse_invalid_def)
qed

lemma parse_loop_returns:
  assumes "cut_text_length_unsigned M" and "keeps_contract X"
  shows "\<exists>r. parse_loop M X st = Some r"
proof (induction "length (buffer st)" arbitrary: st rule: less_induct)
  case less
  show ?case
  proof (cases "buffer st = []")
    case True
    then show ?thesis by (simp add: parse_loop_empty)
  next
    case False
    show ?thesis
    proof (cases "call_packet_parser M X st (buffer st)")
      case (Inl e)
      then show ?thesis using parse_loop_raise [OF False] by simp
    next
      case (Inr r)
      obtain c st' where r: "r = (c, st')" by (cases r)
      note call = Inr [unfolded r]
      note bound = call_packet_parser_bound [OF call assms]
      show ?thesis
      proof (cases "c = 0")
        case True
        then show ?thesis using parse_loop_wait [OF False, of M X st'] call by simp
      next
        case nz: False
        let ?next = "st'\<lparr>buffer := py_slice_from (buffer st') c\<rparr>"
        have "length (buffer ?next) < length (buffer st)"
          using bound nz False length_py_slice_from [of c "buffer st"] by simp
        from less [OF this] show ?thesis
          using parse_loop_step [OF False call nz] by simp
      qed
    qed
  qed
qed

text \<open>The class's own stubs raise, so they keep the contract trivially: for the class as
  it stands the loop terminates under the condition on the table alone.\<close>

lemma base_keeps_contract: "keeps_contract base"
  by (simp add: keeps_contract_def base_def)

lemma parse_loop_returns_base:
  assumes "cut_text_length_unsigned M"
  shows "\<exists>r. parse_loop M base st = Some r"
  using assms base_keeps_contract by (rule parse_loop_returns)




lemma sample_signed: "\<not> cut_text_length_unsigned (sample_imported fmt_i)"
  by (simp add: cut_text_length_unsigned_def sample_defs value_fmts_def)






section \<open>The version handshake\<close>

lemma take_literal_parts:
  assumes "take 12 packet = ''RFB 003.008'' @ [CHR 0x0A]"
  shows "12 \<le> length packet" and "startswith packet ''RFB ''"
    and "py_slice packet 4 11 = ''003.008''"
proof -
  have "length (take 12 packet) = 12" using assms by simp
  then show len: "12 \<le> length packet" by simp
  have "take (length ''RFB '') (take 12 packet) = ''RFB ''" using assms by simp
  then show "startswith packet ''RFB ''" by (simp add: startswith_def)
  have "drop 4 (take 11 (take 12 packet)) = ''003.008''" using assms by simp
  then have "drop 4 (take 11 packet) = ''003.008''" by simp
  then show "py_slice packet 4 11 = ''003.008''"
    using len by (simp add: py_slice_def py_index_def)
qed

lemma py_int_003: "py_int ''003'' = Some 3"
  by (simp add: py_int_def py_isspace_def py_isdigit_def digit_value_def)

lemma py_int_008: "py_int ''008'' = Some 8"
  by (simp add: py_int_def py_isspace_def py_isdigit_def digit_value_def)

text \<open>
  Claim C1. On a buffer whose first 12 bytes are \<open>RFB 003.008\n\<close> the handshake parser
  calls \<open>handshake_complete\<close> on the unchanged state and, when that returns, returns 12
  with the state \<open>handshake_complete\<close> left: the parser itself sends nothing, schedules
  nothing and does not signal invalid. On a buffer of fewer than 12 bytes it returns 0
  and leaves the state as it was.
\<close>

theorem handshake_supported_version:
  "(take 12 packet = ''RFB 003.008'' @ [CHR 0x0A] \<longrightarrow>
      parse_protocol_handshake M X st packet =
        (case handshake_complete X st of Inl e \<Rightarrow> Inl e | Inr (u, st') \<Rightarrow> Inr (12, st')))
   \<and> (length packet < 12 \<longrightarrow> parse_protocol_handshake M X st packet = Inr (0, st))"
proof (intro conjI impI)
  assume lit: "take 12 packet = ''RFB 003.008'' @ [CHR 0x0A]"
  note parts = take_literal_parts [OF lit]
  show "parse_protocol_handshake M X st packet =
        (case handshake_complete X st of Inl e \<Rightarrow> Inl e | Inr (u, st') \<Rightarrow> Inr (12, st'))"
    using parts
    by (simp add: parse_protocol_handshake_def py_int_003 py_int_008 PROTOCOL_VERSION_def)
next
  assume "length packet < 12"
  then show "parse_protocol_handshake M X st packet = Inr (0, st)"
    by (simp add: parse_protocol_handshake_def)
qed

text \<open>With the sample variant the handshake followed by more bytes takes exactly 12 of
  them; in the class itself \<open>handshake_complete\<close> raises; 11 bytes are not enough.\<close>

theorem handshake_supported_version_witness:
  "parse_protocol_handshake (sample_imported fmt_I) sample_variant init_state
      (''RFB 003.008'' @ [CHR 0x0A] @ ''rest'')
     = Inr (12, init_state\<lparr>packet_parser := Parse_security_handshake\<rparr>)
   \<and> parse_protocol_handshake (sample_imported fmt_I) base init_state
      (''RFB 003.008'' @ [CHR 0x0A]) = Inl (NotImplementedError, init_state)
   \<and> parse_protocol_handshake (sample_imported fmt_I) sample_variant init_state ''RFB 003.008''
     = Inr (0, init_state)"
  using handshake_supported_version [of "''RFB 003.008'' @ [CHR 0x0A] @ ''rest''"
      "sample_imported fmt_I" sample_variant init_state]
    handshake_supported_version [of "''RFB 003.008'' @ [CHR 0x0A]"
      "sample_imported fmt_I" base init_state]
    handshake_supported_version [of "''RFB 003.008''"
      "sample_imported fmt_I" sample_variant init_state]
  by (simp add: sample_variant_def base_def)

text \<open>Once the header \<open>RFB\<close> and a space have been seen on 12 bytes or more, the parser
  has three ways out: the version field is no tuple of integers and \<open>int()\<close> raises, or
  it is another version and the construction of the reply raises, or it is the
  supported version and \<open>handshake_complete\<close> takes over. The calls of \<open>send\<close> and
  \<open>invalid\<close> at lines 82 and 83 are never reached.\<close>

lemma reply_raises:
  "py_add (PyBytes header) (PyStr msg) = Inl TypeError"
  by simp

lemma handshake_after_header:
  assumes "12 \<le> length packet" and "startswith packet ''RFB ''"
  shows "parse_protocol_handshake M X st packet = Inl (ValueError, st)
       \<or> parse_protocol_handshake M X st packet = Inl (TypeError, st)
       \<or> parse_protocol_handshake M X st packet
           = (case handshake_complete X st of Inl e \<Rightarrow> Inl e | Inr (u, st') \<Rightarrow> Inr (12, st'))"
proof -
  have long: "\<not> length packet < 12" using assms(1) by simp
  obtain header where
    pack: "struct_pack [fmt_B, fmt_I] [0, int (length ''unsupported protocol version'')]
           = Inr header"
    by (simp add: pack_field_def)
  show ?thesis
  proof (cases "py_int_all (split_sep CHR ''.'' (py_slice packet 4 11))")
    case None
    then show ?thesis using long assms(2) by (simp add: parse_protocol_handshake_def)
  next
    case (Some v)
    show ?thesis
    proof (cases "v = PROTOCOL_VERSION")
      case True
      then show ?thesis using long assms(2) Some by (simp add: parse_protocol_handshake_def)
    next
      case False
      then have "parse_protocol_handshake M X st packet = Inl (TypeError, st)"
        using long assms(2) Some pack
        by (simp add: parse_protocol_handshake_def Let_def del: struct_pack.simps)
      then show ?thesis by simp
    qed
  qed
qed

text \<open>
  Claim C2. The claim asks that a handshake with another version, such as
  \<open>RFB 003.003\n\<close>, is answered with a length-prefixed error reply, an INVALID
  notification and a scheduled disconnect, and returns 0. The source builds the reply as
  \<open>struct.pack(b"!BI", 0, len(msg)) + msg\<close> with \<open>msg\<close> a \<open>str\<close>: the concatenation
  raises TypeError before \<open>send\<close> and \<open>invalid\<close> are reached. The parser leaves with the
  exception and the state untouched: nothing is sent, nothing is scheduled.
\<close>

theorem handshake_version_mismatch_raises:
  "parse_protocol_handshake M X st (''RFB 003.003'' @ [CHR 0x0A]) = Inl (TypeError, st)"
  by (simp add: parse_protocol_handshake_def startswith_def py_slice_def py_index_def
      py_int_def py_isspace_def py_isdigit_def digit_value_def PROTOCOL_VERSION_def
      pack_field_def)

text \<open>
  Claim C7. The claim asks that every 12-byte input starting with \<open>RFB\<close> and a space
  either completes the handshake or goes through \<open>invalid()\<close>, and that the parser never
  raises. A version field that is no pair of integers makes \<open>int()\<close> raise ValueError out
  of the parser, with no call of \<open>invalid()\<close>.
\<close>

theorem handshake_malformed_version_raises:
  "parse_protocol_handshake M X st (''RFB abc.def'' @ [CHR 0x0A]) = Inl (ValueError, st)"
  by (simp add: parse_protocol_handshake_def startswith_def py_slice_def py_index_def
      py_int_def py_isspace_def py_isdigit_def digit_value_def)

section \<open>Sending after close\<close>

text \<open>
  Claim C8. Once the closed flag is set, \<open>send\<close> returns the instance unchanged: nothing
  is put on the outbound queue, the writer thread is not started, no field changes and no
  exception is raised (\<open>send\<close> has no failing branch). \<open>close\<close> sets the flag, so this
  holds after every \<open>close()\<close>.
\<close>

theorem send_after_close:
  "(closed st \<longrightarrow> send st packet = st)
   \<and> closed (close M st)
   \<and> send (close M st) packet = close M st"
  by (simp add: send_def close_def terminate_queue_threads_def Let_def)

theorem send_after_close_witness:
  "closed (close (sample_imported fmt_I) established)
   \<and> send (close (sample_imported fmt_I) established) (PyBytes ''abc'')
       = close (sample_imported fmt_I) established
   \<and> write_queue (send (close (sample_imported fmt_I) established) (PyBytes ''abc''))
       = replicate 10 None
   \<and> \<not> write_thread (send (close (sample_imported fmt_I) established) (PyBytes ''abc''))
   \<and> write_queue (send established (PyBytes ''abc'')) = [Some (PyBytes ''abc'')]"
  using send_after_close [of "close (sample_imported fmt_I) established" "PyBytes ''abc''"
      "sample_imported fmt_I"]
  by (simp add: send_def close_def terminate_queue_threads_def Let_def established_def
      init_state_def sample_imported_def start_write_thread_def)

text \<open>Called one after the other, a second \<open>close()\<close> changes nothing: the connection
  has been closed once and the packet sink has received \<open>CONNECTION_LOST\<close> once. (Calls
  that race on two threads are outside this sequential model.)\<close>

lemma close_twice:
  "close M (close M st) = close M st
   \<and> (\<not> closed st \<and> conn st \<longrightarrow>
        conn_close_calls (close M (close M st)) = conn_close_calls st + 1)
   \<and> (\<not> closed st \<longrightarrow>
        process_packet_calls (close M (close M st))
          = process_packet_calls st @ [[CONNECTION_LOST]])"
  by (simp add: close_def terminate_queue_threads_def Let_def)

end
